theory Spec2Isabelle
  imports Main
begin

section \<open>Strings, exceptions and the interpreter\<close>

text \<open>
  A Python \<open>str\<close> is a sequence of Unicode code points, modelled as a list of natural
  numbers; \<open>lit\<close> writes an ASCII literal. Lone surrogates (U+D800 to U+DFFF) can stand
  in a \<open>str\<close>, as they can in Python.
\<close>

type_synonym str = "nat list"

abbreviation lit :: "string \<Rightarrow> str" where
  "lit s \<equiv> map of_char s"

text \<open>
  The exceptions that the program and its library calls raise. \<open>OSError\<close> carries the
  text that \<open>str(e)\<close> gives (\<open>IOError\<close> is the same class in Python 3), \<open>SystemExit\<close>
  the exit status. \<open>NotATaskList\<close> is not a Python exception: it marks the point where
  a manager method meets a stored JSON document that is not a list of task records,
  where this development stops.
\<close>

datatype exn =
    ValueError
  | IndexError
  | JSONDecodeError
  | UnicodeDecodeError
  | UnicodeEncodeError
  | OSError str
  | SystemExit nat
  | NotATaskList

text \<open>
  Two constants of the interpreter vary with its version and configuration and are
  parameters: the decimal-digit property of the Unicode database for code points from
  127 on (\<open>Py_UNICODE_TODECIMAL\<close>), and \<open>sys.get_int_max_str_digits()\<close> (4300 by
  default from Python 3.11 on, 0 where the limit is off or absent).
\<close>

record runtime =
  unicode_decimal :: "nat \<Rightarrow> nat option"
  int_max_str_digits :: nat

subsection \<open>\<open>str.strip()\<close>\<close>

text \<open>\<open>str.isspace\<close> for one code point (Unicode 6.3 and later).\<close>

definition isspace :: "nat \<Rightarrow> bool" where
  "isspace c \<longleftrightarrow>
     (0x09 \<le> c \<and> c \<le> 0x0D) \<or> (0x1C \<le> c \<and> c \<le> 0x20) \<or> c = 0x85 \<or> c = 0xA0 \<or>
     c = 0x1680 \<or> (0x2000 \<le> c \<and> c \<le> 0x200A) \<or> c = 0x2028 \<or> c = 0x2029 \<or>
     c = 0x202F \<or> c = 0x205F \<or> c = 0x3000"

definition strip :: "str \<Rightarrow> str" where
  "strip s = rev (dropWhile isspace (rev (dropWhile isspace s)))"

subsection \<open>\<open>int(s)\<close> for a \<open>str\<close>\<close>

text \<open>
  \<open>int\<close> first rewrites the string to ASCII (\<open>_PyUnicode_TransformDecimalAndSpaceToASCII\<close>):
  code points below 127 stay, other white space becomes a blank, other decimal digits
  become ASCII digits, and anything else becomes \<open>?\<close>, which no number contains.
\<close>

definition transform_decimal_and_space :: "runtime \<Rightarrow> str \<Rightarrow> str" where
  "transform_decimal_and_space rt s =
     map (\<lambda>c. if c < 127 then c
              else if isspace c then 0x20
              else (case unicode_decimal rt c of
                      Some d \<Rightarrow> if d < 10 then 0x30 + d else 0x3F
                    | None \<Rightarrow> 0x3F)) s"

text \<open>\<open>Py_ISSPACE\<close> and \<open>Py_ISDIGIT\<close>: the C locale's classes.\<close>

definition c_isspace :: "nat \<Rightarrow> bool" where
  "c_isspace c \<longleftrightarrow> (0x09 \<le> c \<and> c \<le> 0x0D) \<or> c = 0x20"

definition c_isdigit :: "nat \<Rightarrow> bool" where
  "c_isdigit c \<longleftrightarrow> 0x30 \<le> c \<and> c \<le> 0x39"

text \<open>The value of a run of digits and underscores, most significant digit first.\<close>

fun digits_value :: "int \<Rightarrow> str \<Rightarrow> int" where
  "digits_value acc [] = acc"
| "digits_value acc (c # cs) =
     (if c_isdigit c then digits_value (10 * acc + (int c - 0x30)) cs
      else digits_value acc cs)"

fun double_underscore :: "str \<Rightarrow> bool" where
  "double_underscore (a # b # cs) = ((a = 0x5F \<and> b = 0x5F) \<or> double_underscore (b # cs))"
| "double_underscore _ = False"

text \<open>
  \<open>PyLong_FromString\<close> in base 10: leading white space, one optional sign, a run of
  digits in which single underscores may separate digits, trailing white space, and
  nothing else. More digits than the configured limit are refused.
\<close>

definition long_from_digits :: "nat \<Rightarrow> bool \<Rightarrow> str \<Rightarrow> str \<Rightarrow> exn + int" where
  "long_from_digits limit negative run rest =
     (if run = [] \<or> hd run = 0x5F \<or> double_underscore run \<or> last run = 0x5F then Inl ValueError
      else if 640 < length (filter c_isdigit run) \<and> 0 < limit \<and>
              limit < length (filter c_isdigit run) then Inl ValueError
      else if dropWhile c_isspace rest \<noteq> [] then Inl ValueError
      else Inr (if negative then - digits_value 0 run else digits_value 0 run))"

definition long_from_string :: "nat \<Rightarrow> str \<Rightarrow> exn + int" where
  "long_from_string limit s =
    (let s1 = dropWhile c_isspace s;
         negative = (s1 \<noteq> [] \<and> hd s1 = 0x2D);
         s2 = (if s1 \<noteq> [] \<and> (hd s1 = 0x2B \<or> hd s1 = 0x2D) then tl s1 else s1)
     in long_from_digits limit negative
          (takeWhile (\<lambda>c. c_isdigit c \<or> c = 0x5F) s2)
          (dropWhile (\<lambda>c. c_isdigit c \<or> c = 0x5F) s2))"

definition py_int :: "runtime \<Rightarrow> str \<Rightarrow> exn + int" where
  "py_int rt s = long_from_string (int_max_str_digits rt) (transform_decimal_and_space rt s)"

text \<open>\<open>str(n)\<close> for an integer: decimal digits, a minus sign when negative.\<close>

fun str_of_nat :: "nat \<Rightarrow> str" where
  "str_of_nat n = (if n < 10 then [0x30 + n] else str_of_nat (n div 10) @ [0x30 + n mod 10])"

definition py_str :: "int \<Rightarrow> str" where
  "py_str i = (if i < 0 then 0x2D # str_of_nat (nat (- i)) else str_of_nat (nat i))"

section \<open>TodoValidator\<close>

text \<open>
  \<open>validate_task_text\<close> is \<open>bool(task and task.strip())\<close>; the test suite also calls it
  with \<open>None\<close>, so the argument is optional.
\<close>

definition validate_task_text :: "str option \<Rightarrow> bool" where
  "validate_task_text task =
     (case task of None \<Rightarrow> False | Some t \<Rightarrow> t \<noteq> [] \<and> strip t \<noteq> [])"

definition validate_task_index :: "'a list \<Rightarrow> int \<Rightarrow> bool" where
  "validate_task_index todos index \<longleftrightarrow> 1 \<le> index \<and> index \<le> int (length todos)"

definition get_valid_task_index :: "runtime \<Rightarrow> 'a list \<Rightarrow> str \<Rightarrow> int option" where
  "get_valid_task_index rt todos index_str =
     (case py_int rt index_str of
        Inl e \<Rightarrow> None
      | Inr index \<Rightarrow> if validate_task_index todos index then Some index else None)"

text \<open>
  A runtime for the examples: the default digit limit of Python 3.11 and, of the Unicode
  database's decimal digits beyond ASCII, the Arabic-Indic ones (U+0660 to U+0669).
\<close>

definition sample_runtime :: runtime where
  "sample_runtime =
     \<lparr>unicode_decimal = (\<lambda>c. if 0x660 \<le> c \<and> c \<le> 0x669 then Some (c - 0x660) else None),
      int_max_str_digits = 4300\<rparr>"

section \<open>The \<open>json\<close> module\<close>

subsection \<open>Decoding: \<open>json.load\<close>\<close>

text \<open>
  What \<open>json.loads\<close> returns: \<open>None\<close>, a \<open>bool\<close>, an \<open>int\<close>, a \<open>float\<close>, a \<open>str\<close>, a
  \<open>list\<close> or a \<open>dict\<close> with \<open>str\<close> keys in insertion order. A \<open>float\<close> is kept as the
  text of its literal and never computed. The decoder follows \<open>json.decoder\<close> and
  \<open>json.scanner\<close> (the C scanner's reading of digits and \<open>\\uXXXX\<close> escapes: ASCII
  only); every syntax error is a \<open>JSONDecodeError\<close>. The interpreter's recursion limit
  is not modelled: nesting may be arbitrarily deep.
\<close>

datatype json =
    JNull
  | JBool bool
  | JInt int
  | JFloat str
  | JString str
  | JArray "json list"
  | JObject "(str \<times> json) list"

definition json_ws :: "nat \<Rightarrow> bool" where
  "json_ws c \<longleftrightarrow> c = 0x20 \<or> c = 0x09 \<or> c = 0x0A \<or> c = 0x0D"

definition skip_ws :: "str \<Rightarrow> str" where
  "skip_ws s = dropWhile json_ws s"

definition hex_value :: "nat \<Rightarrow> nat option" where
  "hex_value c =
     (if 0x30 \<le> c \<and> c \<le> 0x39 then Some (c - 0x30)
      else if 0x61 \<le> c \<and> c \<le> 0x66 then Some (c - 0x61 + 10)
      else if 0x41 \<le> c \<and> c \<le> 0x46 then Some (c - 0x41 + 10)
      else None)"

fun decode_uXXXX :: "str \<Rightarrow> nat option" where
  "decode_uXXXX (a # b # c # d # rest) =
     (case (hex_value a, hex_value b, hex_value c, hex_value d) of
        (Some x, Some y, Some z, Some w) \<Rightarrow> Some (((x * 16 + y) * 16 + z) * 16 + w)
      | _ \<Rightarrow> None)"
| "decode_uXXXX _ = None"

definition BACKSLASH :: "nat \<Rightarrow> nat option" where
  "BACKSLASH e =
     (if e = 0x22 then Some 0x22 else if e = 0x5C then Some 0x5C
      else if e = 0x2F then Some 0x2F else if e = 0x62 then Some 0x08
      else if e = 0x66 then Some 0x0C else if e = 0x6E then Some 0x0A
      else if e = 0x72 then Some 0x0D else if e = 0x74 then Some 0x09
      else None)"

definition prepend :: "nat \<Rightarrow> exn + (str \<times> str) \<Rightarrow> exn + (str \<times> str)" where
  "prepend c r = (case r of Inl e \<Rightarrow> Inl e | Inr (s, rest) \<Rightarrow> Inr (c # s, rest))"

definition low_surrogate_escape :: "str \<Rightarrow> nat option" where
  "low_surrogate_escape s =
     (case s of
        a # b # r \<Rightarrow>
          if a = 0x5C \<and> b = 0x75 then
            (case decode_uXXXX r of
               Some u2 \<Rightarrow> if 0xDC00 \<le> u2 \<and> u2 \<le> 0xDFFF then Some u2 else None
             | None \<Rightarrow> None)
          else None
      | _ \<Rightarrow> None)"

function scanstring :: "str \<Rightarrow> exn + (str \<times> str)" where
  "scanstring [] = Inl JSONDecodeError"
| "scanstring (c # cs) =
     (if c = 0x22 then Inr ([], cs)
      else if c = 0x5C then
        (case cs of
           [] \<Rightarrow> Inl JSONDecodeError
         | e # r \<Rightarrow>
             if e = 0x75 then
               (case decode_uXXXX r of
                  None \<Rightarrow> Inl JSONDecodeError
                | Some u \<Rightarrow>
                    if 0xD800 \<le> u \<and> u \<le> 0xDBFF then
                      (case low_surrogate_escape (drop 4 r) of
                         Some u2 \<Rightarrow>
                           prepend (0x10000 + (u - 0xD800) * 0x400 + (u2 - 0xDC00))
                             (scanstring (drop 10 r))
                       | None \<Rightarrow> prepend u (scanstring (drop 4 r)))
                    else prepend u (scanstring (drop 4 r)))
             else
               (case BACKSLASH e of
                  None \<Rightarrow> Inl JSONDecodeError
                | Some ch \<Rightarrow> prepend ch (scanstring r)))
      else if c < 0x20 then Inl JSONDecodeError
      else prepend c (scanstring cs))"
  by pat_completeness auto
termination
  by (relation "measure length") auto


subsubsection \<open>Numbers\<close>

text \<open>The three groups of \<open>NUMBER_RE\<close>, each with what follows its match.\<close>

definition match_integer :: "str \<Rightarrow> (str \<times> str) option" where
  "match_integer s =
     (let sign = (if s \<noteq> [] \<and> hd s = 0x2D then [0x2D] else []);
          s1 = (if s \<noteq> [] \<and> hd s = 0x2D then tl s else s)
      in case s1 of
           [] \<Rightarrow> None
         | d # r \<Rightarrow>
             if d = 0x30 then Some (sign @ [d], r)
             else if c_isdigit d then Some (sign @ d # takeWhile c_isdigit r, dropWhile c_isdigit r)
             else None)"

definition match_frac :: "str \<Rightarrow> str \<times> str" where
  "match_frac s =
     (case s of
        [] \<Rightarrow> ([], s)
      | p # r \<Rightarrow>
          if p = 0x2E \<and> takeWhile c_isdigit r \<noteq> []
          then (p # takeWhile c_isdigit r, dropWhile c_isdigit r)
          else ([], s))"

definition match_exp :: "str \<Rightarrow> str \<times> str" where
  "match_exp s =
     (case s of
        [] \<Rightarrow> ([], s)
      | e # r \<Rightarrow>
          if e = 0x65 \<or> e = 0x45 then
            (let sign = (if r \<noteq> [] \<and> (hd r = 0x2D \<or> hd r = 0x2B) then [hd r] else []);
                 r1 = drop (length sign) r
             in if takeWhile c_isdigit r1 \<noteq> []
                then (e # sign @ takeWhile c_isdigit r1, dropWhile c_isdigit r1)
                else ([], s))
          else ([], s))"

text \<open>
  A number: an integer literal becomes an \<open>int\<close> (refused with \<open>ValueError\<close> beyond
  the digit limit), one with a fraction or an exponent a \<open>float\<close>, kept as its text.
\<close>

definition match_number :: "nat \<Rightarrow> str \<Rightarrow> (exn + (json \<times> str)) option" where
  "match_number limit s =
     (case match_integer s of
        None \<Rightarrow> None
      | Some (integer, r) \<Rightarrow>
          (let (frac, r1) = match_frac r; (exp, r2) = match_exp r1
           in if frac \<noteq> [] \<or> exp \<noteq> [] then Some (Inr (JFloat (integer @ frac @ exp), r2))
              else (case long_from_string limit integer of
                      Inl e \<Rightarrow> Some (Inl e)
                    | Inr i \<Rightarrow> Some (Inr (JInt i, r2)))))"

text \<open>\<open>dict[key] = value\<close>: a key already present keeps its place.\<close>

fun dict_set :: "(str \<times> 'v) list \<Rightarrow> str \<Rightarrow> 'v \<Rightarrow> (str \<times> 'v) list" where
  "dict_set [] k v = [(k, v)]"
| "dict_set ((k', v') # d) k v =
     (if k' = k then (k', v) # d else (k', v') # dict_set d k v)"

definition starts :: "str \<Rightarrow> str \<Rightarrow> bool" where
  "starts p s \<longleftrightarrow> take (length p) s = p"

function scan_once :: "nat \<Rightarrow> str \<Rightarrow> exn + (json \<times> str)"
  and JSONArray :: "nat \<Rightarrow> json list \<Rightarrow> str \<Rightarrow> exn + (json \<times> str)"
  and JSONObject :: "nat \<Rightarrow> (str \<times> json) list \<Rightarrow> str \<Rightarrow> exn + (json \<times> str)"
where
  "scan_once limit [] = Inl JSONDecodeError"
| "scan_once limit (c # cs) =
     (if c = 0x22 then
        (case scanstring cs of Inl e \<Rightarrow> Inl e | Inr (s, r) \<Rightarrow> Inr (JString s, r))
      else if c = 0x7B then
        (case skip_ws cs of
           [] \<Rightarrow> Inl JSONDecodeError
         | d # r \<Rightarrow>
             if d = 0x7D then Inr (JObject [], r)
             else if d = 0x22 then JSONObject limit [] r
             else Inl JSONDecodeError)
      else if c = 0x5B then
        (case skip_ws cs of
           [] \<Rightarrow> Inl JSONDecodeError
         | d # r \<Rightarrow>
             if d = 0x5D then Inr (JArray [], r)
             else JSONArray limit [] (d # r))
      else if starts (lit ''null'') (c # cs) then Inr (JNull, drop 4 (c # cs))
      else if starts (lit ''true'') (c # cs) then Inr (JBool True, drop 4 (c # cs))
      else if starts (lit ''false'') (c # cs) then Inr (JBool False, drop 5 (c # cs))
      else
        (case match_number limit (c # cs) of
           Some r \<Rightarrow> r
         | None \<Rightarrow>
             if starts (lit ''NaN'') (c # cs) then Inr (JFloat (lit ''NaN''), drop 3 (c # cs))
             else if starts (lit ''Infinity'') (c # cs)
               then Inr (JFloat (lit ''Infinity''), drop 8 (c # cs))
             else if starts (lit ''-Infinity'') (c # cs)
               then Inr (JFloat (lit ''-Infinity''), drop 9 (c # cs))
             else Inl JSONDecodeError))"
| "JSONArray limit values s =
     (case scan_once limit s of
        Inl e \<Rightarrow> Inl e
      | Inr (v, r) \<Rightarrow>
          (case skip_ws r of
             [] \<Rightarrow> Inl JSONDecodeError
           | d # r1 \<Rightarrow>
               if d = 0x5D then Inr (JArray (values @ [v]), r1)
               else if d = 0x2C then JSONArray limit (values @ [v]) (skip_ws r1)
               else Inl JSONDecodeError))"
| "JSONObject limit pairs s =
     (case scanstring s of
        Inl e \<Rightarrow> Inl e
      | Inr (key, r) \<Rightarrow>
          (case skip_ws r of
             [] \<Rightarrow> Inl JSONDecodeError
           | d # r1 \<Rightarrow>
               if d \<noteq> 0x3A then Inl JSONDecodeError
               else
                 (case scan_once limit (skip_ws r1) of
                    Inl e \<Rightarrow> Inl e
                  | Inr (v, r2) \<Rightarrow>
                      (case skip_ws r2 of
                         [] \<Rightarrow> Inl JSONDecodeError
                       | d2 # r3 \<Rightarrow>
                           if d2 = 0x7D then Inr (JObject (dict_set pairs key v), r3)
                           else if d2 = 0x2C then
                             (case skip_ws r3 of
                                [] \<Rightarrow> Inl JSONDecodeError
                              | d3 # r4 \<Rightarrow>
                                  if d3 = 0x22 then JSONObject limit (dict_set pairs key v) r4
                                  else Inl JSONDecodeError)
                           else Inl JSONDecodeError))))"
  by pat_completeness auto

lemma length_skip_ws: "length (skip_ws s) \<le> length s"
  by (simp add: skip_ws_def length_dropWhile_le)

lemma skip_ws_Cons_shorter: "skip_ws s = d # r \<Longrightarrow> length r < length s"
  using length_skip_ws [of s] by simp

lemma prepend_Inr:
  "prepend c x = Inr (s, r) \<longleftrightarrow> (\<exists>s'. x = Inr (s', r) \<and> s = c # s')"
  by (auto simp: prepend_def split: sum.splits)

lemma scanstring_shorter: "scanstring s = Inr (x, r) \<Longrightarrow> length r < length s"
proof (induction "length s" arbitrary: s x rule: less_induct)
  case less
  show ?case
  proof (cases s)
    case Nil
    with less.prems show ?thesis by simp
  next
    case (Cons c cs)
    have H: "length r < length s" if "scanstring t = Inr (y, r)" "length t \<le> length cs" for t y
    proof -
      from that(2) Cons have "length t < length s" by simp
      from less.hyps [OF this that(1)] this show ?thesis by simp
    qed
    from less.prems Cons show ?thesis
      by (auto simp: prepend_Inr split: if_splits list.splits option.splits dest: H)
  qed
qed

lemma match_integer_shorter: "match_integer s = Some (i, r) \<Longrightarrow> length r < length s"
  by (cases s)
    (auto simp: match_integer_def Let_def length_dropWhile_le less_Suc_eq_le
       split: list.splits if_splits intro: le_trans [OF length_dropWhile_le])

lemma match_frac_le: "match_frac s = (f, r) \<Longrightarrow> length r \<le> length s"
  by (auto simp: match_frac_def split: list.splits if_splits
        intro: le_trans [OF length_dropWhile_le])

lemma match_exp_le: "match_exp s = (e, r) \<Longrightarrow> length r \<le> length s"
  by (auto simp: match_exp_def Let_def split: list.splits if_splits
        intro!: le_trans [OF length_dropWhile_le])

lemma match_number_shorter:
  assumes "match_number limit s = Some (Inr (v, r))"
  shows "length r < length s"
proof -
  from assms obtain i r0 where i: "match_integer s = Some (i, r0)"
    by (auto simp: match_number_def split: option.splits)
  obtain f r1 where f: "match_frac r0 = (f, r1)" by (cases "match_frac r0")
  obtain e r2 where e: "match_exp r1 = (e, r2)" by (cases "match_exp r1")
  from assms i f e have "r = r2"
    by (auto simp: match_number_def split: if_splits sum.splits)
  with match_integer_shorter [OF i] match_frac_le [OF f] match_exp_le [OF e]
  show ?thesis by simp
qed

lemma scan_shorter_dom:
  "scan_once_JSONArray_JSONObject_dom (Inl (limit, s)) \<Longrightarrow>
     \<forall>v r. scan_once limit s = Inr (v, r) \<longrightarrow> length r < length s"
  "scan_once_JSONArray_JSONObject_dom (Inr (Inl (limit, vals, s))) \<Longrightarrow>
     \<forall>v r. JSONArray limit vals s = Inr (v, r) \<longrightarrow> length r < length s"
  "scan_once_JSONArray_JSONObject_dom (Inr (Inr (limit, pairs, s))) \<Longrightarrow>
     \<forall>v r. JSONObject limit pairs s = Inr (v, r) \<longrightarrow> length r < length s"
proof (induct rule: scan_once_JSONArray_JSONObject.pinduct)
  case (1 limit)
  then show ?case by (simp add: scan_once.psimps)
next
  case (2 limit c cs)
  show ?case
  proof (intro allI impI)
    fix v r
    assume eq: "scan_once limit (c # cs) = Inr (v, r)"
    consider (str) "c = 0x22" | (obj) "c \<noteq> 0x22" "c = 0x7B"
      | (arr) "c \<noteq> 0x22" "c \<noteq> 0x7B" "c = 0x5B"
      | (other) "c \<noteq> 0x22" "c \<noteq> 0x7B" "c \<noteq> 0x5B"
      by blast
    then show "length r < length (c # cs)"
    proof cases
      case str
      with eq "2.hyps"(1) show ?thesis
        by (auto simp: scan_once.psimps split: sum.splits dest!: scanstring_shorter)
    next
      case obj
      with eq "2.hyps"(1) obtain d r0 where sk: "skip_ws cs = d # r0"
        and rest: "(d = 0x7D \<and> r = r0) \<or> (d \<noteq> 0x7D \<and> d = 0x22 \<and> JSONObject limit [] r0 = Inr (v, r))"
        by (auto simp: scan_once.psimps split: list.splits if_splits)
      from rest show ?thesis
      proof
        assume "d = 0x7D \<and> r = r0"
        with skip_ws_Cons_shorter [OF sk] show ?thesis by simp
      next
        assume a: "d \<noteq> 0x7D \<and> d = 0x22 \<and> JSONObject limit [] r0 = Inr (v, r)"
        with "2.hyps"(2) [OF obj sk] have "length r < length r0" by simp
        with skip_ws_Cons_shorter [OF sk] show ?thesis by simp
      qed
    next
      case arr
      with eq "2.hyps"(1) obtain d r0 where sk: "skip_ws cs = d # r0"
        and rest: "(d = 0x5D \<and> r = r0) \<or> (d \<noteq> 0x5D \<and> JSONArray limit [] (d # r0) = Inr (v, r))"
        by (auto simp: scan_once.psimps split: list.splits if_splits)
      from rest show ?thesis
      proof
        assume "d = 0x5D \<and> r = r0"
        with skip_ws_Cons_shorter [OF sk] show ?thesis by simp
      next
        assume a: "d \<noteq> 0x5D \<and> JSONArray limit [] (d # r0) = Inr (v, r)"
        with "2.hyps"(3) [OF arr sk] have "length r < length (d # r0)" by simp
        with length_skip_ws [of cs] sk show ?thesis by simp
      qed
    next
      case other
      with eq "2.hyps"(1) show ?thesis
        by (auto simp: scan_once.psimps starts_def split: if_splits option.splits
              dest!: match_number_shorter)
    qed
  qed
next
  case (3 limit vals s)
  show ?case
  proof (intro allI impI)
    fix v r
    assume eq: "JSONArray limit vals s = Inr (v, r)"
    with "3.hyps"(1) obtain x y d r1 where so: "scan_once limit s = Inr (x, y)"
      and sk: "skip_ws y = d # r1"
      and rest: "(d = 0x5D \<and> r = r1) \<or>
         (d \<noteq> 0x5D \<and> d = 0x2C \<and> JSONArray limit (vals @ [x]) (skip_ws r1) = Inr (v, r))"
      by (auto simp: JSONArray.psimps split: sum.splits list.splits if_splits)
    from "3.hyps"(2) so have y: "length y < length s" by simp
    from rest show "length r < length s"
    proof
      assume "d = 0x5D \<and> r = r1"
      with skip_ws_Cons_shorter [OF sk] y show ?thesis by simp
    next
      assume a: "d \<noteq> 0x5D \<and> d = 0x2C \<and> JSONArray limit (vals @ [x]) (skip_ws r1) = Inr (v, r)"
      with "3.hyps"(3) [OF so refl sk] have "length r < length (skip_ws r1)" by simp
      with length_skip_ws [of r1] skip_ws_Cons_shorter [OF sk] y show ?thesis by simp
    qed
  qed
next
  case (4 limit pairs s)
  show ?case
  proof (intro allI impI)
    fix v r
    assume eq: "JSONObject limit pairs s = Inr (v, r)"
    with "4.hyps"(1) obtain key y r1 x y2 d2 r3 where ss: "scanstring s = Inr (key, y)"
      and sk: "skip_ws y = 0x3A # r1"
      and so: "scan_once limit (skip_ws r1) = Inr (x, y2)"
      and sk2: "skip_ws y2 = d2 # r3"
      and rest: "(d2 = 0x7D \<and> r = r3) \<or>
         (d2 \<noteq> 0x7D \<and> d2 = 0x2C \<and> (\<exists>r4. skip_ws r3 = 0x22 # r4 \<and>
            JSONObject limit (dict_set pairs key x) r4 = Inr (v, r)))"
      by (auto simp: JSONObject.psimps split: sum.splits list.splits if_splits)
    have y: "length y < length s" using scanstring_shorter [OF ss] .
    from "4.hyps"(2) [OF ss refl sk] so have y2: "length y2 < length (skip_ws r1)" by simp
    have chain: "length r3 < length s"
      using skip_ws_Cons_shorter [OF sk2] y2 length_skip_ws [of r1] skip_ws_Cons_shorter [OF sk] y
      by simp
    from rest show "length r < length s"
    proof
      assume "d2 = 0x7D \<and> r = r3"
      with chain show ?thesis by simp
    next
      assume "d2 \<noteq> 0x7D \<and> d2 = 0x2C \<and> (\<exists>r4. skip_ws r3 = 0x22 # r4 \<and>
            JSONObject limit (dict_set pairs key x) r4 = Inr (v, r))"
      then obtain r4 where d2: "d2 \<noteq> 0x7D" "d2 = 0x2C" and sk3: "skip_ws r3 = 0x22 # r4"
        and jo: "JSONObject limit (dict_set pairs key x) r4 = Inr (v, r)" by blast
      from "4.hyps"(3) [OF ss refl sk _ so refl sk2 d2 sk3] jo have "length r < length r4" by simp
      with skip_ws_Cons_shorter [OF sk3] chain show ?thesis by simp
    qed
  qed
qed

lemma scan_once_dom_shorter:
  "scan_once_JSONArray_JSONObject_dom (Inl (limit, s)) \<Longrightarrow> scan_once limit s = Inr (v, r) \<Longrightarrow>
   length r < length s"
  using scan_shorter_dom(1) by blast

lemma skip_ws_less: "length s < n \<Longrightarrow> length (skip_ws s) < n"
  using length_skip_ws [of s] by simp

termination scan_once
proof (relation "measure (\<lambda>x. case x of
          Inl (limit, s) \<Rightarrow> 2 * length s
        | Inr (Inl (limit, vals, s)) \<Rightarrow> 2 * length s + 1
        | Inr (Inr (limit, pairs, s)) \<Rightarrow> 2 * length s + 1)", goal_cases)
  case 1
  show ?case by simp
next
  case 2
  then show ?case by (auto dest!: skip_ws_Cons_shorter)
next
  case 3
  then show ?case by (auto dest!: skip_ws_Cons_shorter)
next
  case 4
  show ?case by simp
next
  case 5
  then show ?case
    by (auto dest!: scan_once_dom_shorter skip_ws_Cons_shorter intro!: skip_ws_less)
next
  case 6
  then show ?case
    using length_skip_ws
    by (auto dest!: scanstring_shorter skip_ws_Cons_shorter
          intro: le_less_trans [OF mult_le_mono2 [OF length_skip_ws]])
next
  case 7
  then show ?case
    by (auto dest!: scan_once_dom_shorter scanstring_shorter skip_ws_Cons_shorter
          dest: skip_ws_less)
qed

declare JSONArray.simps [simp del] JSONObject.simps [simp del]

text \<open>\<open>json.loads\<close>: one value between optional white space, and nothing after it.\<close>

definition loads :: "runtime \<Rightarrow> str \<Rightarrow> exn + json" where
  "loads rt s =
     (if s \<noteq> [] \<and> hd s = 0xFEFF then Inl JSONDecodeError
      else (case scan_once (int_max_str_digits rt) (skip_ws s) of
              Inl e \<Rightarrow> Inl e
            | Inr (v, r) \<Rightarrow> if skip_ws r = [] then Inr v else Inl JSONDecodeError))"

subsection \<open>Task records\<close>

text \<open>
  A task is the \<open>dict\<close> that \<open>create_todo\<close> builds, with the keys \<open>task\<close>, \<open>completed\<close>
  and \<open>created\<close> in this order. \<open>todos_of_json\<close> reads a decoded document as a list of
  such records and accepts no other shape.
\<close>

record todo =
  task :: str
  completed :: bool
  created :: str

definition json_of_todo :: "todo \<Rightarrow> json" where
  "json_of_todo t =
     JObject [(lit ''task'', JString (task t)), (lit ''completed'', JBool (completed t)),
              (lit ''created'', JString (created t))]"

definition json_of_todos :: "todo list \<Rightarrow> json" where
  "json_of_todos ts = JArray (map json_of_todo ts)"

fun todo_of_json :: "json \<Rightarrow> todo option" where
  "todo_of_json (JObject [(k1, JString a), (k2, JBool b), (k3, JString c)]) =
     (if k1 = lit ''task'' \<and> k2 = lit ''completed'' \<and> k3 = lit ''created''
      then Some \<lparr>task = a, completed = b, created = c\<rparr> else None)"
| "todo_of_json _ = None"

fun those_todos :: "json list \<Rightarrow> todo list option" where
  "those_todos [] = Some []"
| "those_todos (j # js) =
     (case todo_of_json j of
        None \<Rightarrow> None
      | Some t \<Rightarrow> (case those_todos js of None \<Rightarrow> None | Some ts \<Rightarrow> Some (t # ts)))"

fun todos_of_json :: "json \<Rightarrow> todo list option" where
  "todos_of_json (JArray js) = those_todos js"
| "todos_of_json _ = None"

subsection \<open>Encoding: \<open>json.dump(todos, file, indent=2, ensure_ascii=False)\<close>\<close>

text \<open>
  \<open>encode_basestring\<close>: with \<open>ensure_ascii=False\<close> only the quote, the backslash and the
  control characters below U+0020 are escaped; every other code point is written as it
  is.
\<close>

definition hex_digit :: "nat \<Rightarrow> nat" where
  "hex_digit d = (if d < 10 then 0x30 + d else 0x61 + (d - 10))"

definition escape_char :: "nat \<Rightarrow> str" where
  "escape_char c =
     (if c = 0x5C then [0x5C, 0x5C] else if c = 0x22 then [0x5C, 0x22]
      else if c = 0x08 then [0x5C, 0x62] else if c = 0x0C then [0x5C, 0x66]
      else if c = 0x0A then [0x5C, 0x6E] else if c = 0x0D then [0x5C, 0x72]
      else if c = 0x09 then [0x5C, 0x74]
      else if c < 0x20 then [0x5C, 0x75, 0x30, 0x30, hex_digit (c div 16), hex_digit (c mod 16)]
      else [c])"

definition encode_basestring :: "str \<Rightarrow> str" where
  "encode_basestring s = 0x22 # concat (map escape_char s) @ [0x22]"

text \<open>
  The chunks that the encoder hands to \<open>file.write\<close>, one call each, for a list of task
  records (the pure-Python encoder, which \<open>indent\<close> selects). The list stands at
  indentation level 0, its records at level 1, their items at level 2.
\<close>

definition iterencode_dict :: "todo \<Rightarrow> str list" where
  "iterencode_dict t =
     [lit ''{'', 0x0A # lit ''    '',
      encode_basestring (lit ''task''), lit '': '', encode_basestring (task t),
      lit '','' @ 0x0A # lit ''    '',
      encode_basestring (lit ''completed''), lit '': '',
      (if completed t then lit ''true'' else lit ''false''),
      lit '','' @ 0x0A # lit ''    '',
      encode_basestring (lit ''created''), lit '': '', encode_basestring (created t),
      0x0A # lit ''  '', lit ''}'']"

fun iterencode_list :: "todo list \<Rightarrow> str list" where
  "iterencode_list [] = [lit ''[]'']"
| "iterencode_list (t # ts) =
     [lit ''['' @ 0x0A # lit ''  ''] @ iterencode_dict t @
     concat (map (\<lambda>t'. [lit '','' @ 0x0A # lit ''  ''] @ iterencode_dict t') ts) @
     [[0x0A], lit '']'']"

section \<open>TodoStorage\<close>

text \<open>
  The world outside the program. \<open>disk\<close> is the backing file: absent, or present with
  bytes that are not UTF-8 (\<open>Undecodable\<close>), or present with the text its bytes decode
  to. \<open>read_error\<close> and \<open>write_error\<close> say whether opening the file for reading or for
  writing fails, and with which message. \<open>clock\<close> is what
  \<open>datetime.now().strftime('%Y-%m-%d %H:%M')\<close> returns, \<open>stdout\<close> the arguments of the
  \<open>print\<close> calls so far, \<open>interp\<close> the interpreter's constants. Standard output is
  taken to accept every string.
\<close>

datatype file_content = Undecodable | Text str

record world =
  disk :: "file_content option"
  read_error :: "str option"
  write_error :: "str option"
  clock :: str
  stdout :: "str list"
  interp :: runtime

definition py_print :: "str \<Rightarrow> world \<Rightarrow> world" where
  "py_print line w = w\<lparr>stdout := stdout w @ [line]\<rparr>"

text \<open>A world for the examples: no file yet, nothing printed.\<close>

definition fresh_world :: world where
  "fresh_world =
     \<lparr>disk = None, read_error = None, write_error = None, clock = lit ''2024-01-01 12:00'',
      stdout = [], interp = sample_runtime\<rparr>"

text \<open>Reading in text mode turns \<open>\\r\\n\<close> and \<open>\\r\<close> into \<open>\\n\<close>.\<close>

fun universal_newlines :: "str \<Rightarrow> str" where
  "universal_newlines [] = []"
| "universal_newlines [c] = [if c = 0x0D then 0x0A else c]"
| "universal_newlines (c # d # r) =
     (if c = 0x0D then 0x0A # (if d = 0x0A then universal_newlines r else universal_newlines (d # r))
      else c # universal_newlines (d # r))"

text \<open>\<open>open(filename, 'r', encoding='utf-8')\<close> and \<open>file.read()\<close>.\<close>

definition open_read :: "world \<Rightarrow> exn + str" where
  "open_read w =
     (case disk w of
        None \<Rightarrow> Inl (OSError (lit ''No such file or directory''))
      | Some c \<Rightarrow>
          (case read_error w of
             Some msg \<Rightarrow> Inl (OSError msg)
           | None \<Rightarrow>
               (case c of
                  Undecodable \<Rightarrow> Inl UnicodeDecodeError
                | Text t \<Rightarrow> Inr (universal_newlines t))))"

definition json_load :: "world \<Rightarrow> exn + json" where
  "json_load w = (case open_read w of Inl e \<Rightarrow> Inl e | Inr t \<Rightarrow> loads (interp w) t)"

text \<open>
  \<open>load_todos\<close>: an absent file gives the empty list; \<open>JSONDecodeError\<close> and \<open>IOError\<close>
  are caught and give the empty list; any other exception propagates; a decoded
  document is returned as it is.
\<close>

definition load_todos :: "world \<Rightarrow> exn + json" where
  "load_todos w =
     (if disk w = None then Inr (JArray [])
      else (case json_load w of
              Inl JSONDecodeError \<Rightarrow> Inr (JArray [])
            | Inl (OSError msg) \<Rightarrow> Inr (JArray [])
            | Inl e \<Rightarrow> Inl e
            | Inr doc \<Rightarrow> Inr doc))"

text \<open>
  A string can be written to the UTF-8 file when it holds no surrogate;
  \<open>file.write\<close> raises \<open>UnicodeEncodeError\<close> otherwise, and the file keeps the chunks
  written before.
\<close>

definition utf8_encodable :: "str \<Rightarrow> bool" where
  "utf8_encodable s \<longleftrightarrow> list_all (\<lambda>c. c < 0xD800 \<or> (0xDFFF < c \<and> c < 0x110000)) s"

text \<open>
  A task record is well formed when its two strings are text that UTF-8 can encode:
  sequences of Unicode scalar values. (The spec asks more of a task: a non-empty trimmed
  text and a time stamp of a fixed format. Nothing below needs that.)
\<close>

definition well_formed :: "todo \<Rightarrow> bool" where
  "well_formed t \<longleftrightarrow> utf8_encodable (task t) \<and> utf8_encodable (created t)"

definition file_text :: "world \<Rightarrow> str" where
  "file_text w = (case disk w of Some (Text t) \<Rightarrow> t | _ \<Rightarrow> [])"

fun write_chunks :: "str list \<Rightarrow> world \<Rightarrow> (exn + unit) \<times> world" where
  "write_chunks [] w = (Inr (), w)"
| "write_chunks (c # cs) w =
     (if utf8_encodable c then write_chunks cs (w\<lparr>disk := Some (Text (file_text w @ c))\<rparr>)
      else (Inl UnicodeEncodeError, w))"

text \<open>
  \<open>save_todos\<close>: opening for writing truncates the file; an \<open>IOError\<close> is reported and
  ends the process with status 1.
\<close>

definition save_todos :: "todo list \<Rightarrow> world \<Rightarrow> (exn + unit) \<times> world" where
  "save_todos todos w =
     (case write_error w of
        Some msg \<Rightarrow>
          (Inl (SystemExit 1), py_print (0x274C # lit '' Error saving todos: '' @ msg) w)
      | None \<Rightarrow> write_chunks (iterencode_list todos) (w\<lparr>disk := Some (Text [])\<rparr>))"

section \<open>TodoFormatter\<close>

definition COLORS :: "(str \<times> str) list" where
  "COLORS =
     [(lit ''green'', 0x1B # lit ''[92m''), (lit ''red'', 0x1B # lit ''[91m''),
      (lit ''yellow'', 0x1B # lit ''[93m''), (lit ''blue'', 0x1B # lit ''[94m''),
      (lit ''magenta'', 0x1B # lit ''[95m''), (lit ''cyan'', 0x1B # lit ''[96m''),
      (lit ''white'', 0x1B # lit ''[97m''), (lit ''bold'', 0x1B # lit ''[1m''),
      (lit ''reset'', 0x1B # lit ''[0m'')]"

definition SYMBOLS :: "(str \<times> str) list" where
  "SYMBOLS =
     [(lit ''check'', [0x2705]), (lit ''cross'', [0x274C]), (lit ''list'', [0x1F4CB]),
      (lit ''trash'', [0x1F5D1, 0xFE0F]), (lit ''empty'', [0x1F4ED]), (lit ''add'', [0x2795]),
      (lit ''todo'', [0x1F4DD]), (lit ''done'', [0x2611, 0xFE0F]), (lit ''pending'', [0x23F3])]"

text \<open>\<open>table.get(key, '')\<close>; every key that the program subscripts a table with is present.\<close>

definition lookup :: "(str \<times> str) list \<Rightarrow> str \<Rightarrow> str" where
  "lookup table key = (case map_of table key of Some v \<Rightarrow> v | None \<Rightarrow> [])"

definition colorize :: "str \<Rightarrow> str \<Rightarrow> str" where
  "colorize s color = lookup COLORS color @ s @ lookup COLORS (lit ''reset'')"

definition format_todo_item :: "todo \<Rightarrow> int \<Rightarrow> str" where
  "format_todo_item t index =
     (let status = (if completed t then [0x2713] else lit '' '');
          status_color = (if completed t then lit ''green'' else lit ''yellow'');
          checkbox = colorize (lit ''['' @ status @ lit '']'') status_color;
          task_text = (if completed t then colorize (task t) (lit ''green'') else task t);
          date_str = colorize (lit ''('' @ created t @ lit '')'') (lit ''blue'')
      in colorize (py_str index) (lit ''magenta'') @ lit ''. '' @ checkbox @ lit '' '' @
         task_text @ lit '' '' @ date_str)"

definition print_header :: "str \<Rightarrow> world \<Rightarrow> world" where
  "print_header title w =
     py_print (colorize (replicate (length title + 3) 0x3D) (lit ''cyan''))
       (py_print (0x0A # lookup SYMBOLS (lit ''todo'') @ lit '' '' @ colorize title (lit ''bold'')) w)"

definition print_success :: "str \<Rightarrow> world \<Rightarrow> world" where
  "print_success message w =
     py_print (lookup SYMBOLS (lit ''check'') @ lit '' '' @ colorize message (lit ''green'')) w"

definition print_error :: "str \<Rightarrow> world \<Rightarrow> world" where
  "print_error message w =
     py_print (lookup SYMBOLS (lit ''cross'') @ lit '' '' @ colorize message (lit ''red'')) w"

definition print_info :: "str \<Rightarrow> world \<Rightarrow> world" where
  "print_info message w =
     py_print (lookup SYMBOLS (lit ''list'') @ lit '' '' @ colorize message (lit ''blue'')) w"

section \<open>TodoManager\<close>

text \<open>
  Python's list subscript: a negative index counts from the end, an index outside the
  list raises \<open>IndexError\<close>. \<open>py_index\<close> gives the position that \<open>xs[i]\<close> and
  \<open>xs.pop(i)\<close> touch.
\<close>

definition py_index :: "'a list \<Rightarrow> int \<Rightarrow> exn + nat" where
  "py_index xs i =
     (let n = int (length xs); j = (if i < 0 then i + n else i)
      in if 0 \<le> j \<and> j < n then Inr (nat j) else Inl IndexError)"

definition py_getitem :: "'a list \<Rightarrow> int \<Rightarrow> exn + 'a" where
  "py_getitem xs i = (case py_index xs i of Inl e \<Rightarrow> Inl e | Inr k \<Rightarrow> Inr (xs ! k))"

definition py_pop :: "'a list \<Rightarrow> int \<Rightarrow> exn + ('a \<times> 'a list)" where
  "py_pop xs i =
     (case py_index xs i of
        Inl e \<Rightarrow> Inl e
      | Inr k \<Rightarrow> Inr (xs ! k, take k xs @ drop (Suc k) xs))"

text \<open>
  Every method starts by loading the stored document. The methods are modelled on
  documents that are lists of task records, which is what the program itself writes;
  on any other document the model stops with \<open>NotATaskList\<close>.
\<close>

definition load_task_list :: "world \<Rightarrow> exn + todo list" where
  "load_task_list w =
     (case load_todos w of
        Inl e \<Rightarrow> Inl e
      | Inr doc \<Rightarrow> (case todos_of_json doc of None \<Rightarrow> Inl NotATaskList | Some todos \<Rightarrow> Inr todos))"

definition create_todo :: "str \<Rightarrow> world \<Rightarrow> todo" where
  "create_todo s w = \<lparr>task = strip s, completed = False, created = clock w\<rparr>"

definition add_task :: "str \<Rightarrow> world \<Rightarrow> (exn + bool) \<times> world" where
  "add_task s w =
     (if \<not> validate_task_text (Some s)
      then (Inr False, print_error (lit ''Task cannot be empty!'') w)
      else
        (case load_task_list w of
           Inl e \<Rightarrow> (Inl e, w)
         | Inr todos \<Rightarrow>
             (case save_todos (todos @ [create_todo s w]) w of
                (Inl e, w') \<Rightarrow> (Inl e, w')
              | (Inr u, w') \<Rightarrow> (Inr True, print_success (lit ''Task added: '' @ s) w'))))"

definition summary_line :: "nat \<Rightarrow> nat \<Rightarrow> nat \<Rightarrow> str" where
  "summary_line n_total n_completed n_pending =
     0x0A # colorize (lit ''Summary:'') (lit ''bold'') @ lit '' '' @ py_str (int n_total) @
     lit '' total, '' @ py_str (int n_completed) @ lit '' completed, '' @
     py_str (int n_pending) @ lit '' pending''"

text \<open>The body of \<open>for i, todo in enumerate(tasks, start): print(...)\<close>.\<close>

definition print_items :: "nat \<Rightarrow> todo list \<Rightarrow> world \<Rightarrow> world" where
  "print_items start tasks w =
     foldl (\<lambda>w' (i, t). py_print (lit ''  '' @ format_todo_item t (int i)) w') w
       (enumerate start tasks)"

definition list_tasks :: "world \<Rightarrow> (exn + unit) \<times> world" where
  "list_tasks w =
     (case load_task_list w of
        Inl e \<Rightarrow> (Inl e, w)
      | Inr todos \<Rightarrow>
          if todos = [] then
            (Inr (),
             py_print (lookup SYMBOLS (lit ''empty'') @ lit '' Your todo list is empty!'')
               (print_info (lit ''No tasks found.'') w))
          else
            (let w1 = print_header (lit ''Your Todo List'') w;
                 pending_tasks = filter (\<lambda>t. \<not> completed t) todos;
                 completed_tasks = filter completed todos;
                 w2 = (if pending_tasks \<noteq> [] then
                         print_items 1 pending_tasks
                           (py_print (0x0A # lookup SYMBOLS (lit ''pending'') @ lit '' '' @
                              colorize (lit ''Pending Tasks:'') (lit ''yellow'')) w1)
                       else w1);
                 w3 = (if completed_tasks \<noteq> [] then
                         print_items (length pending_tasks + 1) completed_tasks
                           (py_print (0x0A # lookup SYMBOLS (lit ''done'') @ lit '' '' @
                              colorize (lit ''Completed Tasks:'') (lit ''green'')) w2)
                       else w2)
             in (Inr (),
                 py_print (summary_line (length todos) (length completed_tasks)
                             (length pending_tasks)) w3)))"

definition complete_task :: "str \<Rightarrow> world \<Rightarrow> (exn + bool) \<times> world" where
  "complete_task index_str w =
     (case load_task_list w of
        Inl e \<Rightarrow> (Inl e, w)
      | Inr todos \<Rightarrow>
          if todos = [] then (Inr False, print_error (lit ''No tasks found!'') w)
          else
            (case get_valid_task_index (interp w) todos index_str of
               None \<Rightarrow> (Inr False, print_error (lit ''Invalid task number: '' @ index_str) w)
             | Some index \<Rightarrow>
                 (case py_index todos (index - 1) of
                    Inl e \<Rightarrow> (Inl e, w)
                  | Inr k \<Rightarrow>
                      if completed (todos ! k) then
                        (Inr False,
                         print_info (lit ''Task '' @ py_str index @ lit '' is already completed!'') w)
                      else
                        (case save_todos (todos[k := (todos ! k)\<lparr>completed := True\<rparr>]) w of
                           (Inl e, w') \<Rightarrow> (Inl e, w')
                         | (Inr u, w') \<Rightarrow>
                             (Inr True,
                              print_success (lit ''Task '' @ py_str index @
                                lit '' marked as complete: '' @ task (todos ! k)) w')))))"

definition remove_task :: "str \<Rightarrow> world \<Rightarrow> (exn + bool) \<times> world" where
  "remove_task index_str w =
     (case load_task_list w of
        Inl e \<Rightarrow> (Inl e, w)
      | Inr todos \<Rightarrow>
          if todos = [] then (Inr False, print_error (lit ''No tasks found!'') w)
          else
            (case get_valid_task_index (interp w) todos index_str of
               None \<Rightarrow> (Inr False, print_error (lit ''Invalid task number: '' @ index_str) w)
             | Some index \<Rightarrow>
                 (case py_pop todos (index - 1) of
                    Inl e \<Rightarrow> (Inl e, w)
                  | Inr (removed_todo, todos') \<Rightarrow>
                      (case save_todos todos' w of
                         (Inl e, w') \<Rightarrow> (Inl e, w')
                       | (Inr u, w') \<Rightarrow>
                           (Inr True,
                            print_success (lit ''Task '' @ py_str index @ lit '' removed: '' @
                              task removed_todo) w')))))"

definition clear_completed :: "world \<Rightarrow> (exn + bool) \<times> world" where
  "clear_completed w =
     (case load_task_list w of
        Inl e \<Rightarrow> (Inl e, w)
      | Inr todos \<Rightarrow>
          (let completed_count = length (filter completed todos)
           in if completed_count = 0
              then (Inr False, print_info (lit ''No completed tasks to clear!'') w)
              else
                (case save_todos (filter (\<lambda>t. \<not> completed t) todos) w of
                   (Inl e, w') \<Rightarrow> (Inl e, w')
                 | (Inr u, w') \<Rightarrow>
                     (Inr True,
                      print_success (lit ''Cleared '' @ py_str (int completed_count) @
                        lit '' completed task(s)'') w'))))"

section \<open>Properties of the validator\<close>

lemma strip_eq_Nil_iff: "strip s = [] \<longleftrightarrow> (\<forall>c\<in>set s. isspace c)"
proof -
  have "strip s = [] \<longleftrightarrow> (\<forall>c\<in>set (dropWhile isspace s). isspace c)"
    by (simp add: strip_def dropWhile_eq_Nil_conv)
  also have "\<dots> \<longleftrightarrow> dropWhile isspace s = []"
    by (metis dropWhile_eq_Nil_conv dropWhile_idem)
  also have "\<dots> \<longleftrightarrow> (\<forall>c\<in>set s. isspace c)"
    by (simp add: dropWhile_eq_Nil_conv)
  finally show ?thesis .
qed

text \<open>
  Claim C7. \<open>validate_task_text\<close> returns true exactly when its argument is present
  (not \<open>None\<close>) and holds at least one character that is not white space; for a string
  this is the same as being non-empty after \<open>strip()\<close>. White space is what
  \<open>str.isspace\<close> accepts.
\<close>

theorem validate_task_text_iff:
  "(validate_task_text v \<longleftrightarrow> (\<exists>s. v = Some s \<and> (\<exists>c\<in>set s. \<not> isspace c))) \<and>
   (validate_task_text (Some s) \<longleftrightarrow> strip s \<noteq> [])"
  by (cases v) (auto simp: validate_task_text_def strip_eq_Nil_iff)

theorem validate_task_text_witness:
  "validate_task_text (Some (lit ''Buy milk'')) \<and> \<not> validate_task_text (Some (lit ''   '')) \<and>
   \<not> validate_task_text (Some []) \<and> \<not> validate_task_text None \<and>
   strip (lit ''  Buy milk '') = lit ''Buy milk''"
  using validate_task_text_iff [of "Some (lit ''Buy milk'')" "lit ''   ''"]
    validate_task_text_iff [of None "[]"]
  by (simp add: strip_def isspace_def)

lemma long_from_digits_error: "long_from_digits limit negative run rest = Inl e \<Longrightarrow> e = ValueError"
  by (simp add: long_from_digits_def split: if_split_asm)

lemma py_int_error: "py_int rt s = Inl e \<Longrightarrow> e = ValueError"
  unfolding py_int_def long_from_string_def Let_def by (rule long_from_digits_error)

text \<open>
  Claim C6. \<open>get_valid_task_index\<close> (the spec's \<open>resolveIndex\<close>) returns none when
  \<open>int(index_str)\<close> raises \<open>ValueError\<close>, the only exception it can raise, and none when
  the integer parsed lies outside \<open>1 .. len(todos)\<close>; an index that it does return is
  the very integer parsed, never another one.
\<close>

theorem get_valid_task_index_none:
  "(py_int rt s = Inl ValueError \<longrightarrow> get_valid_task_index rt todos s = None) \<and>
   (py_int rt s = Inr i \<and> \<not> (1 \<le> i \<and> i \<le> int (length todos)) \<longrightarrow>
      get_valid_task_index rt todos s = None) \<and>
   (get_valid_task_index rt todos s = Some i \<longrightarrow> py_int rt s = Inr i)"
  by (auto simp: get_valid_task_index_def validate_task_index_def split: sum.splits if_splits)

lemmas py_int_eval =
  py_int_def long_from_string_def long_from_digits_def transform_decimal_and_space_def
  sample_runtime_def
  c_isspace_def c_isdigit_def isspace_def Let_def

theorem get_valid_task_index_none_witness:
  "py_int sample_runtime (lit ''abc'') = Inl ValueError \<and>
   get_valid_task_index sample_runtime [(), ()] (lit ''abc'') = None \<and>
   py_int sample_runtime (lit ''5'') = Inr 5 \<and> \<not> (1 \<le> (5::int) \<and> (5::int) \<le> int (length [(), ()])) \<and>
   get_valid_task_index sample_runtime [(), ()] (lit ''5'') = None \<and>
   get_valid_task_index sample_runtime [(), ()] (lit ''0'') = None \<and>
   get_valid_task_index sample_runtime [(), ()] (lit '' 2 '') = Some 2 \<and>
   py_int sample_runtime (lit '' 2 '') = Inr 2"
proof -
  have a: "py_int sample_runtime (lit ''abc'') = Inl ValueError"
    and b: "py_int sample_runtime (lit ''5'') = Inr 5"
    and c: "py_int sample_runtime (lit ''0'') = Inr 0"
    and d: "get_valid_task_index sample_runtime [(), ()] (lit '' 2 '') = Some 2"
    by (simp_all add: py_int_eval get_valid_task_index_def validate_task_index_def)
  from a b c d
    get_valid_task_index_none [of sample_runtime "lit ''abc''" "[(), ()]" 0]
    get_valid_task_index_none [of sample_runtime "lit ''5''" "[(), ()]" 5]
    get_valid_task_index_none [of sample_runtime "lit ''0''" "[(), ()]" 0]
    get_valid_task_index_none [of sample_runtime "lit '' 2 ''" "[(), ()]" 2]
  show ?thesis by simp
qed

section \<open>The decoder inverts the encoder\<close>

lemma hex_value_hex_digit: "d < 16 \<Longrightarrow> hex_value (hex_digit d) = Some d"
  by (auto simp: hex_value_def hex_digit_def)

lemma decode_uXXXX_control:
  "c < 0x20 \<Longrightarrow> decode_uXXXX (0x30 # 0x30 # hex_digit (c div 16) # hex_digit (c mod 16) # rest) = Some c"
proof -
  assume c: "c < 0x20"
  then have "c div 16 < 16" "c mod 16 < 16" by simp_all
  moreover have "hex_value 0x30 = Some 0" by (simp add: hex_value_def)
  ultimately show ?thesis
    by (simp add: hex_value_hex_digit)
qed

lemma scanstring_escape_char:
  "scanstring (escape_char c @ rest) = prepend c (scanstring rest)"
proof -
  consider "c = 0x5C" | "c = 0x22" | "c = 0x08" | "c = 0x0C" | "c = 0x0A" | "c = 0x0D" | "c = 0x09"
    | "c < 0x20" "c \<noteq> 0x08" "c \<noteq> 0x0C" "c \<noteq> 0x0A" "c \<noteq> 0x0D" "c \<noteq> 0x09"
    | "0x20 \<le> c" "c \<noteq> 0x5C" "c \<noteq> 0x22"
    by linarith
  then show ?thesis
  proof cases
    case 8
    then show ?thesis
      by (simp add: escape_char_def decode_uXXXX_control del: decode_uXXXX.simps)
  qed (simp_all add: escape_char_def BACKSLASH_def)
qed

lemma scanstring_encoded:
  "scanstring (concat (map escape_char s) @ 0x22 # rest) = Inr (s, rest)"
  by (induction s) (simp_all add: scanstring_escape_char prepend_def)

lemma scanstring_encoded_Cons [simp]:
  "scanstring (concat (map escape_char s) @ 0x22 # rest) = Inr (s, rest)"
  by (rule scanstring_encoded)

lemma scan_once_dict:
  "scan_once limit (concat (iterencode_dict t) @ rest) = Inr (json_of_todo t, rest)"
  by (cases "completed t")
    (simp_all add: iterencode_dict_def encode_basestring_def escape_char_def skip_ws_def
       json_ws_def JSONObject.simps prepend_def starts_def json_of_todo_def)

lemma iterencode_dict_Cons: "\<exists>b. concat (iterencode_dict t) = 0x7B # b"
  by (simp add: iterencode_dict_def)

lemma dropWhile_ws_dict [simp]:
  "dropWhile json_ws (concat (iterencode_dict t) @ r) = concat (iterencode_dict t) @ r"
  using iterencode_dict_Cons [of t] by (auto simp: json_ws_def)

lemma JSONArray_items:
  "JSONArray limit vals
     (concat (iterencode_dict t) @
      concat (concat (map (\<lambda>t'. [lit '','' @ 0x0A # lit ''  ''] @ iterencode_dict t') ts)) @
      0x0A # 0x5D # rest) =
   Inr (JArray (vals @ map json_of_todo (t # ts)), rest)"
proof (induction ts arbitrary: t vals)
  case Nil
  show ?case
    by (subst JSONArray.simps) (simp add: scan_once_dict skip_ws_def json_ws_def)
next
  case (Cons u us)
  show ?case
    by (subst JSONArray.simps)
      (simp add: scan_once_dict skip_ws_def json_ws_def Cons.IH [simplified])
qed

lemma scan_once_list:
  "scan_once limit (concat (iterencode_list ts) @ rest) = Inr (json_of_todos ts, rest)"
proof (cases ts)
  case Nil
  then show ?thesis
    by (simp add: skip_ws_def json_ws_def json_of_todos_def)
next
  case (Cons t us)
  obtain b where b: "concat (iterencode_dict t) = 0x7B # b"
    using iterencode_dict_Cons by blast
  have sk: "skip_ws (0x0A # 0x20 # 0x20 # 0x7B # x) = 0x7B # x" for x
    by (simp add: skip_ws_def json_ws_def)
  from JSONArray_items [of limit "[]" t us rest] Cons show ?thesis
    by (simp add: b sk json_of_todos_def)
qed

lemma loads_iterencode_list:
  "loads rt (concat (iterencode_list ts)) = Inr (json_of_todos ts)"
proof -
  have nws: "dropWhile json_ws (concat (iterencode_list ts)) = concat (iterencode_list ts)"
    by (cases ts) (simp_all add: json_ws_def)
  have nbom: "concat (iterencode_list ts) \<noteq> [] \<and> hd (concat (iterencode_list ts)) \<noteq> 0xFEFF"
    by (cases ts) simp_all
  from scan_once_list [of "int_max_str_digits rt" ts "[]"] show ?thesis
    by (simp add: loads_def nws nbom skip_ws_def)
qed

section \<open>Properties of the storage\<close>

lemma utf8_encodable_append [simp]:
  "utf8_encodable (a @ b) \<longleftrightarrow> utf8_encodable a \<and> utf8_encodable b"
  by (simp add: utf8_encodable_def)

lemma utf8_encodable_hex_digit: "utf8_encodable [hex_digit d]" if "d < 16"
  using that by (simp add: utf8_encodable_def hex_digit_def)

lemma utf8_encodable_escape_char:
  "utf8_encodable [c] \<Longrightarrow> utf8_encodable (escape_char c)"
  by (auto simp: escape_char_def utf8_encodable_def hex_digit_def)

lemma utf8_encodable_encode_basestring:
  "utf8_encodable s \<Longrightarrow> utf8_encodable (encode_basestring s)"
proof (induction s)
  case Nil
  then show ?case by (simp add: encode_basestring_def utf8_encodable_def)
next
  case (Cons c s)
  then have "utf8_encodable [c]" "utf8_encodable s" by (simp_all add: utf8_encodable_def)
  with Cons.IH utf8_encodable_escape_char [of c] show ?case
    by (simp add: encode_basestring_def utf8_encodable_def)
qed

lemma chunks_dict_encodable:
  "well_formed t \<Longrightarrow> list_all utf8_encodable (iterencode_dict t)"
  by (simp add: iterencode_dict_def well_formed_def utf8_encodable_encode_basestring)
    (simp add: utf8_encodable_def encode_basestring_def escape_char_def)

lemma chunks_list_encodable:
  "list_all well_formed ts \<Longrightarrow> list_all utf8_encodable (iterencode_list ts)"
proof (cases ts)
  case Nil
  then show ?thesis by (simp add: utf8_encodable_def)
next
  case (Cons t us)
  assume "list_all well_formed ts"
  with Cons have t: "well_formed t" and us: "list_all well_formed us" by simp_all
  from us have "list_all utf8_encodable
      (concat (map (\<lambda>t'. [lit '','' @ 0x0A # lit ''  ''] @ iterencode_dict t') us))"
    by (induction us) (simp_all add: chunks_dict_encodable, simp_all add: utf8_encodable_def)
  with t Cons show ?thesis
    by (simp add: chunks_dict_encodable) (simp add: utf8_encodable_def)
qed

lemma write_chunks_encodable:
  "list_all utf8_encodable cs \<Longrightarrow> disk w = Some (Text t0) \<Longrightarrow>
   write_chunks cs w = (Inr (), w\<lparr>disk := Some (Text (t0 @ concat cs))\<rparr>)"
proof (induction cs arbitrary: w t0)
  case Nil
  then show ?case by (cases w) simp
next
  case (Cons c cs)
  then have c: "utf8_encodable c" and cs: "list_all utf8_encodable cs" by simp_all
  have "disk (w\<lparr>disk := Some (Text (t0 @ c))\<rparr>) = Some (Text (t0 @ c))" by simp
  from Cons.IH [OF cs this] Cons.prems(2) c show ?case
    by (simp add: file_text_def)
qed

lemma save_todos_ok:
  assumes "list_all well_formed ts" "write_error w = None"
  shows "save_todos ts w = (Inr (), w\<lparr>disk := Some (Text (concat (iterencode_list ts)))\<rparr>)"
  using assms write_chunks_encodable [OF chunks_list_encodable [OF assms(1)],
      of "w\<lparr>disk := Some (Text [])\<rparr>" "[]"]
  by (simp add: save_todos_def)

lemma universal_newlines_id: "0x0D \<notin> set s \<Longrightarrow> universal_newlines s = s"
  by (induction s rule: universal_newlines.induct) auto

lemma escape_char_no_CR: "0x0D \<notin> set (escape_char c)"
  by (simp add: escape_char_def hex_digit_def)

lemma encode_basestring_no_CR: "0x0D \<notin> set (encode_basestring s)"
  by (induction s) (auto simp: encode_basestring_def escape_char_no_CR)

lemma iterencode_dict_no_CR: "0x0D \<notin> set (concat (iterencode_dict t))"
  using encode_basestring_no_CR [of "task t"] encode_basestring_no_CR [of "created t"]
  by (simp add: iterencode_dict_def) (simp add: encode_basestring_def escape_char_def)

lemma iterencode_list_no_CR: "0x0D \<notin> set (concat (iterencode_list ts))"
proof (cases ts)
  case Nil
  then show ?thesis by simp
next
  case (Cons t us)
  have "0x0D \<notin> set (concat (concat (map (\<lambda>t'. [lit '','' @ 0x0A # lit ''  ''] @ iterencode_dict t') us)))"
    using iterencode_dict_no_CR by (induction us) auto
  with Cons iterencode_dict_no_CR [of t] show ?thesis by simp
qed

lemma todo_of_json_inverse [simp]: "todo_of_json (json_of_todo t) = Some t"
  by (simp add: json_of_todo_def)

lemma those_todos_inverse [simp]: "those_todos (map json_of_todo ts) = Some ts"
  by (induction ts) simp_all

lemma todos_of_json_inverse [simp]: "todos_of_json (json_of_todos ts) = Some ts"
  by (simp add: json_of_todos_def)

lemma load_todos_written:
  assumes "disk w = Some (Text (concat (iterencode_list ts)))" "read_error w = None"
  shows "load_todos w = Inr (json_of_todos ts)"
  using assms
  by (simp add: load_todos_def json_load_def open_read_def
        universal_newlines_id [OF iterencode_list_no_CR] loads_iterencode_list)

text \<open>
  Claim C1. Storage round trip: for every list of well-formed task records, in a world
  where the backing file can be written and read, \<open>save_todos\<close> returns normally and a
  following \<open>load_todos\<close> returns the JSON document of exactly that list, which reads
  back as the same records in the same order.
\<close>

theorem save_load_roundtrip:
  assumes "list_all well_formed ts" and "write_error w = None" and "read_error w = None"
  shows "fst (save_todos ts w) = Inr () \<and>
         load_todos (snd (save_todos ts w)) = Inr (json_of_todos ts) \<and>
         load_task_list (snd (save_todos ts w)) = Inr ts"
  using assms
  by (simp add: save_todos_ok load_todos_written load_task_list_def)

theorem save_load_roundtrip_witness:
  \<open>list_all well_formed
     [\<lparr>task = lit ''say "hi"'' @ [0x0A, 0xE9, 0x1F600], completed = False, created = lit ''2024-01-01 12:00''\<rparr>,
      \<lparr>task = lit ''Buy milk'', completed = True, created = lit ''2024-01-02 08:30''\<rparr>] \<and>
   write_error fresh_world = None \<and> read_error fresh_world = None \<and>
   load_task_list (snd (save_todos
     [\<lparr>task = lit ''say "hi"'' @ [0x0A, 0xE9, 0x1F600], completed = False, created = lit ''2024-01-01 12:00''\<rparr>,
      \<lparr>task = lit ''Buy milk'', completed = True, created = lit ''2024-01-02 08:30''\<rparr>] fresh_world)) =
   Inr [\<lparr>task = lit ''say "hi"'' @ [0x0A, 0xE9, 0x1F600], completed = False, created = lit ''2024-01-01 12:00''\<rparr>,
      \<lparr>task = lit ''Buy milk'', completed = True, created = lit ''2024-01-02 08:30''\<rparr>]\<close>
proof -
  have wf: \<open>list_all well_formed
     [\<lparr>task = lit ''say "hi"'' @ [0x0A, 0xE9, 0x1F600], completed = False, created = lit ''2024-01-01 12:00''\<rparr>,
      \<lparr>task = lit ''Buy milk'', completed = True, created = lit ''2024-01-02 08:30''\<rparr>]\<close>
    by (simp add: well_formed_def utf8_encodable_def)
  have w: "write_error fresh_world = None" "read_error fresh_world = None"
    by (simp_all add: fresh_world_def)
  from save_load_roundtrip [OF wf w] wf w show ?thesis by simp
qed

lemmas loads_eval =
  loads_def skip_ws_def json_ws_def prepend_def BACKSLASH_def hex_value_def
  low_surrogate_escape_def match_number_def match_integer_def match_frac_def match_exp_def
  starts_def c_isdigit_def c_isspace_def long_from_string_def long_from_digits_def
  JSONArray.simps JSONObject.simps Let_def

lemmas load_eval =
  load_todos_def json_load_def open_read_def fresh_world_def sample_runtime_def

text \<open>
  Claim C5, as amended. \<open>load_todos\<close> returns the empty list when the backing file is
  absent, when opening or reading it raises an I/O error, and when the JSON decoder
  rejects its text with \<open>JSONDecodeError\<close>; when the decoder accepts the text,
  \<open>load_todos\<close> returns the decoded document as it is, whatever its shape. The claim as
  stated fails: the file text \<open>[1]\<close> gives the non-empty list \<open>[1]\<close>, which is no list of
  task records.
\<close>

theorem load_todos_cases:
  "(disk w = None \<longrightarrow> load_todos w = Inr (JArray [])) \<and>
   (disk w \<noteq> None \<and> read_error w \<noteq> None \<longrightarrow> load_todos w = Inr (JArray [])) \<and>
   (\<forall>t. disk w = Some (Text t) \<and> read_error w = None \<and>
        loads (interp w) (universal_newlines t) = Inl JSONDecodeError \<longrightarrow>
        load_todos w = Inr (JArray [])) \<and>
   (\<forall>t doc. disk w = Some (Text t) \<and> read_error w = None \<and>
        loads (interp w) (universal_newlines t) = Inr doc \<longrightarrow>
        load_todos w = Inr doc)"
  by (auto simp: load_todos_def json_load_def open_read_def split: option.splits)

theorem load_todos_counterexample:
  "load_todos (fresh_world\<lparr>disk := Some (Text (lit ''[1]''))\<rparr>) = Inr (JArray [JInt 1]) \<and>
   JArray [JInt 1] \<noteq> JArray [] \<and> todos_of_json (JArray [JInt 1]) = None"
  by (simp add: load_eval loads_eval)

theorem load_todos_cases_witness:
  "disk fresh_world = None \<and> load_todos fresh_world = Inr (JArray []) \<and>
   read_error (fresh_world\<lparr>disk := Some (Text (lit ''[]'')), read_error := Some (lit ''Permission denied'')\<rparr>) \<noteq> None \<and>
   load_todos (fresh_world\<lparr>disk := Some (Text (lit ''[]'')), read_error := Some (lit ''Permission denied'')\<rparr>) = Inr (JArray []) \<and>
   loads sample_runtime (universal_newlines (lit ''{oops'')) = Inl JSONDecodeError \<and>
   load_todos (fresh_world\<lparr>disk := Some (Text (lit ''{oops''))\<rparr>) = Inr (JArray []) \<and>
   loads sample_runtime (universal_newlines (lit ''[true, null]'')) = Inr (JArray [JBool True, JNull]) \<and>
   load_todos (fresh_world\<lparr>disk := Some (Text (lit ''[true, null]''))\<rparr>) = Inr (JArray [JBool True, JNull])"
proof -
  have a: "loads sample_runtime (universal_newlines (lit ''{oops'')) = Inl JSONDecodeError"
    by (simp add: loads_eval sample_runtime_def)
  have b: "loads sample_runtime (universal_newlines (lit ''[true, null]'')) = Inr (JArray [JBool True, JNull])"
    by (simp add: loads_eval sample_runtime_def)
  from a b
    load_todos_cases [of fresh_world]
    load_todos_cases [of "fresh_world\<lparr>disk := Some (Text (lit ''[]'')), read_error := Some (lit ''Permission denied'')\<rparr>"]
    load_todos_cases [of "fresh_world\<lparr>disk := Some (Text (lit ''{oops''))\<rparr>"]
    load_todos_cases [of "fresh_world\<lparr>disk := Some (Text (lit ''[true, null]''))\<rparr>"]
  show ?thesis by (simp add: fresh_world_def)
qed

section \<open>The exceptions of the decoder\<close>

lemma scanstring_error: "scanstring s = Inl e \<Longrightarrow> e = JSONDecodeError"
proof (induction "length s" arbitrary: s rule: less_induct)
  case less
  show ?case
  proof (cases s)
    case Nil
    with less.prems show ?thesis by simp
  next
    case (Cons c cs)
    have H: "e = JSONDecodeError" if "scanstring t = Inl e" "length t \<le> length cs" for t
      using less.hyps [of t] that Cons by simp
    from less.prems Cons show ?thesis
      by (auto simp: prepend_def split: if_splits list.splits option.splits sum.splits
            dest: H)
  qed
qed

lemma match_number_error: "match_number limit s = Some (Inl e) \<Longrightarrow> e = ValueError"
  by (auto simp: match_number_def long_from_string_def Let_def
        split: option.splits prod.splits if_splits sum.splits dest: long_from_digits_error)

lemma scan_error:
  "scan_once limit s = Inl e \<longrightarrow> e = JSONDecodeError \<or> e = ValueError"
  "JSONArray limit vals s = Inl e \<longrightarrow> e = JSONDecodeError \<or> e = ValueError"
  "JSONObject limit pairs s = Inl e \<longrightarrow> e = JSONDecodeError \<or> e = ValueError"
proof (induction limit s and limit vals s and limit pairs s
    rule: scan_once_JSONArray_JSONObject.induct)
  case (1 limit)
  show ?case by simp
next
  case (2 limit c cs)
  show ?case
  proof
    assume eq: "scan_once limit (c # cs) = Inl e"
    consider (str) "c = 0x22" | (obj) "c \<noteq> 0x22" "c = 0x7B"
      | (arr) "c \<noteq> 0x22" "c \<noteq> 0x7B" "c = 0x5B"
      | (other) "c \<noteq> 0x22" "c \<noteq> 0x7B" "c \<noteq> 0x5B"
      by blast
    then show "e = JSONDecodeError \<or> e = ValueError"
    proof cases
      case str
      with eq show ?thesis
        by (auto split: sum.splits dest: scanstring_error)
    next
      case obj
      show ?thesis
      proof (cases "skip_ws cs")
        case Nil
        with eq obj show ?thesis by simp
      next
        case (Cons d r)
        with eq obj "2.IH"(1) [OF obj Cons] show ?thesis
          by (auto split: if_splits)
      qed
    next
      case arr
      show ?thesis
      proof (cases "skip_ws cs")
        case Nil
        with eq arr show ?thesis by simp
      next
        case (Cons d r)
        with eq arr "2.IH"(2) [OF arr Cons] show ?thesis
          by (auto split: if_splits)
      qed
    next
      case other
      with eq show ?thesis
        by (auto simp: starts_def split: if_splits option.splits dest: match_number_error)
    qed
  qed
next
  case (3 limit vals s)
  show ?case
  proof
    assume eq: "JSONArray limit vals s = Inl e"
    show "e = JSONDecodeError \<or> e = ValueError"
    proof (cases "scan_once limit s")
      case (Inl e')
      with eq "3.IH"(1) show ?thesis
        by (simp add: JSONArray.simps)
    next
      case (Inr b)
      obtain v r where b: "b = (v, r)" by (cases b)
      show ?thesis
      proof (cases "skip_ws r")
        case Nil
        with eq Inr b show ?thesis by (simp add: JSONArray.simps)
      next
        case (Cons d r1)
        with eq Inr b "3.IH"(2) [OF Inr b [symmetric] Cons] show ?thesis
          by (subst (asm) JSONArray.simps) (auto split: if_splits)
      qed
    qed
  qed
next
  case (4 limit pairs s)
  show ?case
  proof
    assume eq: "JSONObject limit pairs s = Inl e"
    show "e = JSONDecodeError \<or> e = ValueError"
    proof (cases "scanstring s")
      case (Inl e')
      with eq scanstring_error [of s e'] show ?thesis
        by (simp add: JSONObject.simps)
    next
      case (Inr b)
      obtain key r where b: "b = (key, r)" by (cases b)
      show ?thesis
      proof (cases "skip_ws r")
        case Nil
        with eq Inr b show ?thesis by (simp add: JSONObject.simps)
      next
        case (Cons d r1)
        note sk = Cons
        show ?thesis
        proof (cases "d = 0x3A")
          case False
          with eq Inr b sk show ?thesis by (simp add: JSONObject.simps)
        next
          case True
          then have d: "\<not> d \<noteq> 0x3A" by simp
          show ?thesis
          proof (cases "scan_once limit (skip_ws r1)")
            case (Inl e')
            with eq Inr b sk True "4.IH"(1) [OF \<open>scanstring s = Inr b\<close> b [symmetric] sk d]
            show ?thesis by (simp add: JSONObject.simps)
          next
            case so: (Inr b2)
            obtain v r2 where b2: "b2 = (v, r2)" by (cases b2)
            show ?thesis
            proof (cases "skip_ws r2")
              case Nil
              with eq Inr b sk True so b2 show ?thesis by (simp add: JSONObject.simps)
            next
              case sk2: (Cons d2 r3)
              show ?thesis
              proof (cases "skip_ws r3")
                case Nil
                with eq Inr b sk True so b2 sk2 show ?thesis
                  by (simp add: JSONObject.simps split: if_splits)
              next
                case sk3: (Cons d3 r4)
                from eq Inr b sk True so b2 sk2 sk3
                  "4.IH"(2) [OF Inr b [symmetric] sk d so b2 [symmetric] sk2 _ _ sk3]
                show ?thesis
                  by (subst (asm) JSONObject.simps) (auto split: if_splits)
              qed
            qed
          qed
        qed
      qed
    qed
  qed
qed

lemma loads_error: "loads rt s = Inl e \<Longrightarrow> e = JSONDecodeError \<or> e = ValueError"
  using scan_error(1) [of "int_max_str_digits rt" "skip_ws s" e]
  by (auto simp: loads_def split: if_splits sum.splits)

end
